theory Spec2Isabelle
  imports Complex_Main
begin

section \<open>Radial velocities of a Keplerian orbit (orbit.py)\<close>

text \<open>
  The module computes a radial-velocity curve from orbital elements. Its numbers are
  Python and NumPy double-precision floats; they are modelled here as real numbers, so
  rounding and overflow are outside the model. Two float effects that change what the code
  does on finite inputs are modelled: the NaN of \<open>np.sqrt\<close> on a negative number, as
  \<open>None\<close> of \<open>real option\<close>, and the underflow of \<open>np.exp\<close> to zero.

  The exceptions the module can raise all come from the Python runtime and from the library
  calls it makes; the module itself has no \<open>raise\<close> statement and no parameter check.
\<close>

datatype error =
    ValueError          \<comment> \<open>\<open>np.linspace\<close> with a negative count, \<open>np.interp\<close> without sample points\<close>
  | ZeroDivisionError   \<comment> \<open>Python float division \<open>2*np.pi/T\<close> with \<open>T = 0\<close>\<close>
  | RuntimeError        \<comment> \<open>\<open>scipy.optimize.newton\<close> failing to converge\<close>

subsection \<open>The functions of the module\<close>

text \<open>
  \<^verbatim>\<open>
  def vr(vz, K, w, f, e):
      w *= np.pi/180.
      return vz + K*(np.cos(w+f) + e*np.cos(w))
  \<close>
\<close>

definition vr :: "real \<Rightarrow> real \<Rightarrow> real \<Rightarrow> real \<Rightarrow> real \<Rightarrow> real" where
  "vr vz K w f e = (let w' = w * (pi / 180) in vz + K * (cos (w' + f) + e * cos w'))"

text \<open>
  \<^verbatim>\<open>
  def kepler(E, e, M):
      return E - e*np.sin(E) - M
  \<close>
\<close>

definition kepler :: "real \<Rightarrow> real \<Rightarrow> real \<Rightarrow> real" where
  "kepler E e M = E - e * sin E - M"

subsection \<open>The library calls\<close>

text \<open>
  \<open>np.linspace(start, stop, num)\<close>: \<open>num\<close> samples \<open>start + i * step\<close> with
  \<open>step = (stop - start) / (num - 1)\<close>, the last one set to \<open>stop\<close>; a single sample is
  \<open>start\<close>, a negative \<open>num\<close> raises ValueError.
\<close>

definition np_linspace :: "real \<Rightarrow> real \<Rightarrow> int \<Rightarrow> error + real list" where
  "np_linspace start stop num =
     (if num < 0 then Inl ValueError
      else let n = nat num;
               dv = real_of_int num - 1;
               delta = stop - start;
               y = map real [0..<n];
               y1 = (if dv > 0 then map (\<lambda>v. v * (delta / dv)) y else map (\<lambda>v. v * delta) y);
               y2 = map (\<lambda>v. v + start) y1
           in Inr (if num > 1 then y2[n - 1 := stop] else y2))"

text \<open>
  \<open>scipy.optimize.newton(func, x0, args)\<close> without \<open>fprime\<close> is the secant method, with
  \<open>tol = 1.48e-8\<close>, \<open>rtol = 0\<close> and \<open>maxiter = 50\<close>:
  \<^verbatim>\<open>
  eps = 1e-4
  p0 = x0
  p1 = x0 * (1 + eps)
  p1 += (eps if p1 >= 0 else -eps)
  q0 = func(p0, *args)
  q1 = func(p1, *args)
  if abs(q1) < abs(q0):
      p0, p1, q0, q1 = p1, p0, q1, q0
  for itr in range(maxiter):
      if q1 == q0:
          if p1 != p0:
              raise RuntimeError(msg)
          p = (p1 + p0) / 2.0
          return p
      else:
          if abs(q1) > abs(q0):
              p = (-q0 / q1 * p1 + p0) / (1 - q0 / q1)
          else:
              p = (-q1 / q0 * p0 + p1) / (1 - q1 / q0)
      if np.isclose(p, p1, rtol=rtol, atol=tol):
          return p
      p0, q0 = p1, q1
      p1 = p
      q1 = func(p1, *args)
  raise RuntimeError(msg)
  \<close>
\<close>

definition np_isclose :: "real \<Rightarrow> real \<Rightarrow> real \<Rightarrow> real \<Rightarrow> bool" where
  "np_isclose a b rtol atol \<longleftrightarrow> \<bar>a - b\<bar> \<le> atol + rtol * \<bar>b\<bar>"

definition newton_tol :: real where
  "newton_tol = 148 / 10 ^ 10"

definition newton_maxiter :: nat where
  "newton_maxiter = 50"

fun secant_loop :: "(real \<Rightarrow> real) \<Rightarrow> nat \<Rightarrow> real \<Rightarrow> real \<Rightarrow> real \<Rightarrow> real \<Rightarrow> error + real" where
  "secant_loop func 0 p0 q0 p1 q1 = Inl RuntimeError"
| "secant_loop func (Suc n) p0 q0 p1 q1 =
     (if q1 = q0 then (if p1 \<noteq> p0 then Inl RuntimeError else Inr ((p1 + p0) / 2))
      else let p = (if \<bar>q1\<bar> > \<bar>q0\<bar> then (- q0 / q1 * p1 + p0) / (1 - q0 / q1)
                    else (- q1 / q0 * p0 + p1) / (1 - q1 / q0))
           in if np_isclose p p1 0 newton_tol then Inr p
              else secant_loop func n p1 q1 p (func p))"

definition sp_newton :: "(real \<Rightarrow> real) \<Rightarrow> real \<Rightarrow> error + real" where
  "sp_newton func x0 =
     (let eps = 1 / 10 ^ 4;
          p0 = x0;
          p1 = x0 * (1 + eps);
          p1 = p1 + (if p1 \<ge> 0 then eps else - eps);
          q0 = func p0;
          q1 = func p1
      in if \<bar>q1\<bar> < \<bar>q0\<bar> then secant_loop func newton_maxiter p1 q1 p0 q0
         else secant_loop func newton_maxiter p0 q0 p1 q1)"

text \<open>\<open>np.sqrt\<close> returns NaN (with a warning, no exception) on a negative number.\<close>

definition np_sqrt :: "real \<Rightarrow> real option" where
  "np_sqrt x = (if x < 0 then None else Some (sqrt x))"

text \<open>\<open>np.arctan2(y, x)\<close>, the angle of the point \<open>(x, y)\<close> in \<open>(-pi, pi]\<close>; 0 at the origin.\<close>

definition np_arctan2 :: "real \<Rightarrow> real \<Rightarrow> real" where
  "np_arctan2 y x =
     (if x > 0 then arctan (y / x)
      else if x < 0 then (if y \<ge> 0 then arctan (y / x) + pi else arctan (y / x) - pi)
      else if y > 0 then pi / 2
      else if y < 0 then - (pi / 2)
      else 0)"

text \<open>
  Python's \<open>x % p\<close> on floats, for a positive \<open>p\<close>: the remainder in \<open>[0, p)\<close>.
\<close>

definition py_mod :: "real \<Rightarrow> real \<Rightarrow> real" where
  "py_mod x p = x - p * of_int \<lfloor>x / p\<rfloor>"

text \<open>
  The search of NumPy's compiled interpolation, on a sorted array: \<open>-1\<close> below the first
  sample, the length above the last one, otherwise the last index \<open>i\<close> with
  \<open>arr[i] \<le> key\<close>:
  \<^verbatim>\<open>
  if (key > arr[len - 1]) return len;
  else if (key < arr[0]) return -1;
  for (i = 1; i < len && key >= arr[i]; ++i);
  return i - 1;
  \<close>
  (longer arrays are searched by bisection, with the same result on a sorted array).
\<close>

definition binary_search_with_guess :: "real \<Rightarrow> real list \<Rightarrow> int" where
  "binary_search_with_guess key arr =
     (if key > last arr then int (length arr)
      else if key < hd arr then - 1
      else int (length (takeWhile (\<lambda>a. key \<ge> a) (tl arr))))"

text \<open>
  One interpolated value. The samples \<open>dy\<close> may be NaN: a query on a sample point returns
  that sample, any other query combines its two neighbours and is NaN when one of them is.
  \<^verbatim>\<open>
  j = binary_search_with_guess(x_val, dx, lenxp, j);
  if (j == -1) dres[i] = lval;
  else if (j == lenxp) dres[i] = rval;
  else if (j == lenxp - 1) dres[i] = dy[j];
  else if (dx[j] == x_val) dres[i] = dy[j];
  else {
      slope = (dy[j+1] - dy[j]) / (dx[j+1] - dx[j]);
      dres[i] = slope*(x_val - dx[j]) + dy[j];
  }
  \<close>
  with \<open>lval = dy[0]\<close> and \<open>rval = dy[lenxp - 1]\<close>, the defaults.
\<close>

definition interp_point :: "real list \<Rightarrow> real option list \<Rightarrow> real \<Rightarrow> real option" where
  "interp_point dx dy x =
     (let lenxp = int (length dx);
          j = binary_search_with_guess x dx
      in if j = - 1 then hd dy
         else if j = lenxp then last dy
         else if j = lenxp - 1 then dy ! nat j
         else if dx ! nat j = x then dy ! nat j
         else (case (dy ! nat j, dy ! nat (j + 1)) of
                 (Some a, Some b) \<Rightarrow>
                   Some ((b - a) / (dx ! nat (j + 1) - dx ! nat j) * (x - dx ! nat j) + a)
               | _ \<Rightarrow> None))"

text \<open>
  \<open>np.interp(x, xp, fp, period=period)\<close>:
  \<^verbatim>\<open>
  if period == 0:
      raise ValueError("period must be a non-zero value")
  period = abs(period)
  if xp.shape[0] != fp.shape[0]:
      raise ValueError("fp and xp are not of the same length")
  x = x % period
  xp = xp % period
  asort_xp = np.argsort(xp)
  xp = xp[asort_xp]
  fp = fp[asort_xp]
  xp = np.concatenate((xp[-1:]-period, xp, xp[0:1]+period))
  fp = np.concatenate((fp[-1:], fp, fp[0:1]))
  return compiled_interp(x, xp, fp, left, right)
  \<close>
  The compiled interpolation raises ValueError on an empty array of sample points.
  Samples with equal abscissa keep their order when sorted.
\<close>

definition np_interp ::
  "real list \<Rightarrow> real list \<Rightarrow> real option list \<Rightarrow> real \<Rightarrow> error + real option list" where
  "np_interp x xp fp period =
     (if period = 0 then Inl ValueError
      else if length xp \<noteq> length fp then Inl ValueError
      else let period = \<bar>period\<bar>;
               x = map (\<lambda>v. py_mod v period) x;
               xp = map (\<lambda>v. py_mod v period) xp;
               srt = sort_key fst (zip xp fp);
               xp = map fst srt;
               fp = map snd srt;
               xp = map (\<lambda>v. v - period) (drop (length xp - 1) xp) @ xp
                      @ map (\<lambda>v. v + period) (take 1 xp);
               fp = drop (length fp - 1) fp @ fp @ take 1 fp
           in if xp = [] then Inl ValueError
              else Inr (map (interp_point xp fp) x))"

subsection \<open>The synthesizer\<close>

text \<open>
  A list comprehension over a call that may raise: the first failure is the result.
\<close>

fun map_result :: "('a \<Rightarrow> error + 'b) \<Rightarrow> 'a list \<Rightarrow> error + 'b list" where
  "map_result g [] = Inr []"
| "map_result g (x # xs) =
     (case g x of
        Inl err \<Rightarrow> Inl err
      | Inr y \<Rightarrow> (case map_result g xs of Inl err \<Rightarrow> Inl err | Inr ys \<Rightarrow> Inr (y # ys)))"

text \<open>
  The root solve of one grid point,
  \<open>sp.newton(func = kepler, x0 = Mk, args = (e, Mk))\<close>.
\<close>

definition solve_kepler :: "real \<Rightarrow> real \<Rightarrow> error + real" where
  "solve_kepler e Mk = sp_newton (\<lambda>E. kepler E e Mk) Mk"

text \<open>
  The true anomaly of one grid point,
  \<open>2*np.arctan2(np.sqrt(1.+e)*np.sin(E/2), np.sqrt(1.-e)*np.cos(E/2))\<close>.
\<close>

definition true_anomaly :: "real \<Rightarrow> real \<Rightarrow> real option" where
  "true_anomaly e E =
     (case (np_sqrt (1 + e), np_sqrt (1 - e)) of
        (Some s1, Some s2) \<Rightarrow> Some (2 * np_arctan2 (s1 * sin (E / 2)) (s2 * cos (E / 2)))
      | _ \<Rightarrow> None)"

text \<open>
  \<^verbatim>\<open>
  def get_RVs(K, T, t0, w, e, a, VZ, NT, ts):
      t = np.linspace(t0, t0+T, NT)
      M = 2*np.pi/T*(t-t0)
      E = np.array([sp.newton(func = kepler, x0 = Mk, args = (e, Mk)) for Mk in M])
      f = 2*np.arctan2(np.sqrt(1.+e)*np.sin(E/2), np.sqrt(1.-e)*np.cos(E/2))
      RV = np.array([vr(VZ, K, w, fk, e) for fk in f])
      RVs = np.interp(ts, t, RV, period = T)
      return RVs
  \<close>
  \<open>T\<close> is a Python float, so \<open>2*np.pi/T\<close> raises ZeroDivisionError when it is zero.
\<close>

definition get_RVs ::
  "real \<Rightarrow> real \<Rightarrow> real \<Rightarrow> real \<Rightarrow> real \<Rightarrow> real \<Rightarrow> real \<Rightarrow> int \<Rightarrow> real list
     \<Rightarrow> error + real option list" where
  "get_RVs K T t0 w e a VZ NT ts =
     (case np_linspace t0 (t0 + T) NT of
        Inl err \<Rightarrow> Inl err
      | Inr t \<Rightarrow>
          if T = 0 then Inl ZeroDivisionError
          else let M = map (\<lambda>tk. 2 * pi / T * (tk - t0)) t
               in (case map_result (solve_kepler e) M of
                     Inl err \<Rightarrow> Inl err
                   | Inr E \<Rightarrow>
                       let f = map (true_anomaly e) E;
                           RV = map (map_option (\<lambda>fk. vr VZ K w fk e)) f
                       in np_interp ts t RV T))"

text \<open>
  \<^verbatim>\<open>
  def log_RVs(lnK, lnT, t0, w, lne, lna, VZ, NT, ts):
      K = np.exp(lnK)
      T = np.exp(lnT)
      e = np.exp(lne)
      a = np.exp(lna)
      return get_RVs(K, T, t0, w, e, a, VZ, NT, ts)
  \<close>
  \<open>log_params\<close> is the four assignments, \<open>log_RVs\<close> the call made with their values.

  \<open>np.exp\<close> on a double underflows: a result below \<open>2 ^ -1075\<close>, half the smallest
  positive double, is returned as \<open>0.0\<close> (with no exception). That is every argument below
  \<open>- 1075 ln 2\<close>, about \<open>-745.13\<close>.
\<close>

definition exp_underflow :: real where
  "exp_underflow = - (1075 * ln 2)"

definition np_exp :: "real \<Rightarrow> real" where
  "np_exp x = (if x < exp_underflow then 0 else exp x)"

definition log_params :: "real \<Rightarrow> real \<Rightarrow> real \<Rightarrow> real \<Rightarrow> real \<times> real \<times> real \<times> real" where
  "log_params lnK lnT lne lna = (np_exp lnK, np_exp lnT, np_exp lne, np_exp lna)"

definition log_RVs ::
  "real \<Rightarrow> real \<Rightarrow> real \<Rightarrow> real \<Rightarrow> real \<Rightarrow> real \<Rightarrow> real \<Rightarrow> int \<Rightarrow> real list
     \<Rightarrow> error + real option list" where
  "log_RVs lnK lnT t0 w lne lna VZ NT ts =
     (case log_params lnK lnT lne lna of
        (K, T, e, a) \<Rightarrow> get_RVs K T t0 w e a VZ NT ts)"

subsection \<open>Auxiliary definitions\<close>

text \<open>The second starting point of the secant iteration, \<open>p1\<close> above.\<close>

definition newton_p1 :: "real \<Rightarrow> real" where
  "newton_p1 x0 = x0 * (1 + 1 / 10 ^ 4) + (if x0 * (1 + 1 / 10 ^ 4) \<ge> 0 then 1 / 10 ^ 4 else - (1 / 10 ^ 4))"

text \<open>
  The first half of \<open>get_RVs\<close> (``Calculating RVs for one period''): the grid times and
  the radial velocities on the grid, or the first exception raised on the way.
\<close>

definition one_period ::
  "real \<Rightarrow> real \<Rightarrow> real \<Rightarrow> real \<Rightarrow> real \<Rightarrow> real \<Rightarrow> int
     \<Rightarrow> error + real list \<times> real option list" where
  "one_period K T t0 w e VZ NT =
     (case np_linspace t0 (t0 + T) NT of
        Inl err \<Rightarrow> Inl err
      | Inr t \<Rightarrow>
          if T = 0 then Inl ZeroDivisionError
          else (case map_result (solve_kepler e) (map (\<lambda>tk. 2 * pi / T * (tk - t0)) t) of
                  Inl err \<Rightarrow> Inl err
                | Inr E \<Rightarrow>
                    Inr (t, map (map_option (\<lambda>fk. vr VZ K w fk e)) (map (true_anomaly e) E))))"

section \<open>The formulas\<close>

text \<open>
  C7: for all VZ, K, w (in degrees), f and e, \<open>vr\<close> returns
  VZ + K (cos (w_rad + f) + e cos w_rad) with w_rad = w pi / 180; it is a total function of
  its five numbers, with no failure branch.
\<close>

theorem vr_formula:
  "vr VZ K w f e = VZ + K * (cos (w * pi / 180 + f) + e * cos (w * pi / 180))"
  by (simp add: vr_def Let_def)

text \<open>
  C8: for every candidate E, eccentricity e and mean anomaly M, the residual function
  returns exactly E - e sin E - M; it is a function of its three arguments only.
\<close>

theorem kepler_residual: "kepler E e M = E - e * sin E - M"
  by (simp add: kepler_def)

section \<open>The root solve\<close>

text \<open>
  When the starting point is already a root and the second point is not, the secant
  iteration returns the starting point in its second round.
\<close>

lemma newton_p1_far: "\<bar>x0 - newton_p1 x0\<bar> \<ge> 1 / 10 ^ 4"
proof (cases "x0 \<ge> 0")
  case True
  then have "x0 * (1 + 1 / 10 ^ 4) \<ge> 0" by simp
  then have "newton_p1 x0 - x0 = x0 / 10 ^ 4 + 1 / 10 ^ 4"
    by (simp add: newton_p1_def algebra_simps)
  with True show ?thesis by simp
next
  case False
  then have "\<not> x0 * (1 + 1 / 10 ^ 4) \<ge> 0" by (simp add: mult_less_0_iff)
  then have "newton_p1 x0 - x0 = x0 / 10 ^ 4 - 1 / 10 ^ 4"
    by (simp add: newton_p1_def algebra_simps)
  with False show ?thesis by simp
qed

lemma secant_loop_root_first:
  assumes "q1 \<noteq> 0" and "\<not> np_isclose p0 p1 0 newton_tol" and "func p0 = 0"
  shows "secant_loop func (Suc (Suc n)) p0 0 p1 q1 = Inr p0"
  using assms by (simp add: Let_def np_isclose_def newton_tol_def)

lemma sp_newton_root_at_start:
  assumes "func x0 = 0" and "func (newton_p1 x0) \<noteq> 0"
  shows "sp_newton func x0 = Inr x0"
proof -
  let ?p1 = "newton_p1 x0"
  let ?q1 = "func ?p1"
  have far: "\<not> np_isclose x0 ?p1 0 newton_tol"
    using newton_p1_far [of x0] by (simp add: np_isclose_def newton_tol_def)
  have start: "sp_newton func x0 = secant_loop func newton_maxiter x0 0 ?p1 ?q1"
    using assms by (simp add: sp_newton_def Let_def newton_p1_def)
  have mx: "newton_maxiter = Suc (Suc 48)" by (simp add: newton_maxiter_def)
  show ?thesis
    unfolding start mx using assms far by (intro secant_loop_root_first) auto
qed

text \<open>The sine lies strictly inside the cone \<open>\<bar>sin x\<bar> < \<bar>x\<bar>\<close> away from 0.\<close>

lemma sin_less_self:
  fixes x :: real
  assumes "0 < x"
  shows "sin x < x"
proof (cases "x \<le> pi")
  case True
  have h: "0 < x / 2" "x / 2 < pi" using assms True pi_gt_zero by auto
  have c: "cos (x / 2) < 1"
    using cos_monotone_0_pi [of 0 "x / 2"] h by simp
  have s: "0 < sin (x / 2)" using sin_gt_zero [OF h] .
  have "sin x = 2 * sin (x / 2) * cos (x / 2)"
    using sin_double [of "x / 2"] by simp
  also have "\<dots> < 2 * sin (x / 2) * 1"
    using c s by (intro mult_strict_left_mono) auto
  also have "\<dots> \<le> x" using sin_x_le_x [of "x / 2"] h by simp
  finally show ?thesis .
next
  case False
  have "sin x \<le> 1" by simp
  also have "1 < pi" using pi_ge_two by linarith
  also have "pi < x" using False by simp
  finally show ?thesis .
qed

lemma neg_less_sin:
  fixes x :: real
  assumes "0 < x"
  shows "- x < sin x"
proof (cases "x < pi")
  case True
  then have "0 < sin x" using sin_gt_zero [OF assms] by simp
  with assms show ?thesis by linarith
next
  case False
  have "- 1 \<le> sin x" by simp
  moreover have "1 < x" using False pi_ge_two by linarith
  ultimately show ?thesis by linarith
qed

lemma abs_sin_less_abs:
  fixes x :: real
  assumes "x \<noteq> 0"
  shows "\<bar>sin x\<bar> < \<bar>x\<bar>"
proof (cases "0 < x")
  case True
  then show ?thesis
    using sin_less_self [of x] neg_less_sin [of x] by (simp add: abs_less_iff)
next
  case False
  then have p: "0 < - x" using assms by simp
  show ?thesis
    using sin_less_self [OF p] neg_less_sin [OF p] p by (simp add: abs_less_iff)
qed


lemma solve_kepler_apsis:
  assumes "sin Mk = 0" and "\<bar>e\<bar> \<le> 1"
  shows "solve_kepler e Mk = Inr Mk"
proof -
  define d where "d = newton_p1 Mk - Mk"
  have d0: "d \<noteq> 0" using newton_p1_far [of Mk] by (auto simp: d_def)
  have p1: "newton_p1 Mk = Mk + d" by (simp add: d_def)
  have "sin (Mk + d) = cos Mk * sin d" using assms(1) by (simp add: sin_add)
  then have "\<bar>e * sin (Mk + d)\<bar> = \<bar>e\<bar> * \<bar>cos Mk\<bar> * \<bar>sin d\<bar>"
    by (simp add: abs_mult)
  also have "\<dots> \<le> 1 * 1 * \<bar>sin d\<bar>"
    using assms(2) by (intro mult_mono) auto
  also have "\<dots> < \<bar>d\<bar>" using abs_sin_less_abs [OF d0] by simp
  finally have "e * sin (Mk + d) \<noteq> d" by auto
  then have "kepler (newton_p1 Mk) e Mk \<noteq> 0"
    by (simp add: kepler_def p1)
  moreover have "kepler Mk e Mk = 0" using assms(1) by (simp add: kepler_def)
  ultimately show ?thesis
    unfolding solve_kepler_def by (intro sp_newton_root_at_start)
qed

lemma secant_loop_error: "secant_loop func n p0 q0 p1 q1 = Inl err \<Longrightarrow> err = RuntimeError"
  by (induction func n p0 q0 p1 q1 rule: secant_loop.induct)
     (auto simp: Let_def split: if_splits)

lemma sp_newton_error: "sp_newton func x0 = Inl err \<Longrightarrow> err = RuntimeError"
  by (auto simp: sp_newton_def Let_def dest: secant_loop_error split: if_splits)

lemma map_result_cases:
  assumes "\<And>x err. g x = Inl err \<Longrightarrow> err = RuntimeError"
  shows "map_result g xs = Inl RuntimeError
         \<or> (\<exists>ys. map_result g xs = Inr ys \<and> length ys = length xs)"
proof (induction xs)
  case Nil
  show ?case by simp
next
  case (Cons x xs)
  show ?case
  proof (cases "g x")
    case (Inl err)
    then show ?thesis using assms [OF Inl] by simp
  next
    case (Inr y)
    with Cons show ?thesis by auto
  qed
qed

lemma map_result_all:
  assumes "\<And>x. x \<in> set xs \<Longrightarrow> g x = Inr (h x)"
  shows "map_result g xs = Inr (map h xs)"
  using assms by (induction xs) auto

section \<open>Interpolation\<close>

lemma binary_search_range:
  assumes "arr \<noteq> []"
  shows "binary_search_with_guess key arr = - 1
         \<or> binary_search_with_guess key arr = int (length arr)
         \<or> (0 \<le> binary_search_with_guess key arr
             \<and> binary_search_with_guess key arr \<le> int (length arr) - 1)"
proof -
  have "length (takeWhile (\<lambda>a. key \<ge> a) (tl arr)) \<le> length (tl arr)"
    by (rule length_takeWhile_le)
  then have "int (length (takeWhile (\<lambda>a. key \<ge> a) (tl arr))) \<le> int (length arr) - 1"
    using assms by (cases arr) auto
  then show ?thesis by (auto simp: binary_search_with_guess_def)
qed

lemma interp_point_closed:
  assumes len: "length dx = length dy" and ne: "dy \<noteq> []"
    and all: "\<And>y. y \<in> set dy \<Longrightarrow> P y"
    and mix: "\<And>j. Suc j < length dy \<Longrightarrow>
       P (case (dy ! j, dy ! Suc j) of
            (Some a, Some b) \<Rightarrow> Some ((b - a) / (dx ! Suc j - dx ! j) * (x - dx ! j) + a)
          | _ \<Rightarrow> None)"
  shows "P (interp_point dx dy x)"
proof -
  define j where "j = binary_search_with_guess x dx"
  have dxne: "dx \<noteq> []" using len ne by auto
  consider "j = - 1" | "j = int (length dx)" | "0 \<le> j" "j \<le> int (length dx) - 1" "j \<noteq> int (length dx)"
    using binary_search_range [OF dxne, of x] by (auto simp: j_def)
  then show ?thesis
  proof cases
    case 1
    then have "interp_point dx dy x = hd dy"
      by (simp add: interp_point_def Let_def j_def [symmetric])
    then show ?thesis using all [of "hd dy"] ne by simp
  next
    case 2
    then have "interp_point dx dy x = last dy"
      by (simp add: interp_point_def Let_def j_def [symmetric])
    then show ?thesis using all [of "last dy"] ne by simp
  next
    case 3
    then have nj: "nat j < length dy" using len by auto
    show ?thesis
    proof (cases "j = int (length dx) - 1 \<or> dx ! nat j = x")
      case True
      then have "interp_point dx dy x = dy ! nat j"
        using 3 by (auto simp: interp_point_def Let_def j_def [symmetric])
      then show ?thesis using all [of "dy ! nat j"] nj by simp
    next
      case False
      then have sj: "Suc (nat j) < length dy" using 3 len by auto
      have n1: "nat (j + 1) = Suc (nat j)" using 3 by (simp add: nat_add_distrib)
      have "interp_point dx dy x =
        (case (dy ! nat j, dy ! Suc (nat j)) of
            (Some a, Some b) \<Rightarrow>
              Some ((b - a) / (dx ! Suc (nat j) - dx ! nat j) * (x - dx ! nat j) + a)
          | _ \<Rightarrow> None)"
        using False 3
        by (simp add: interp_point_def Let_def j_def [symmetric] n1 cong: option.case_cong)
      then show ?thesis using mix [OF sj] by simp
    qed
  qed
qed

lemma interp_point_const:
  assumes "length dx = length dy" and "dy \<noteq> []" and "\<And>y. y \<in> set dy \<Longrightarrow> y = v"
  shows "interp_point dx dy x = v"
proof (rule interp_point_closed [OF assms(1,2)])
  fix y assume "y \<in> set dy" then show "y = v" by (rule assms(3))
next
  fix j assume sj: "Suc j < length dy"
  then have "dy ! j = v" "dy ! Suc j = v" using assms(3) by auto
  then show "(case (dy ! j, dy ! Suc j) of
            (Some a, Some b) \<Rightarrow> Some ((b - a) / (dx ! Suc j - dx ! j) * (x - dx ! j) + a)
          | _ \<Rightarrow> None) = v"
    by (cases v) auto
qed

lemma interp_point_finite:
  assumes "length dx = length dy" and "dy \<noteq> []" and "\<And>y. y \<in> set dy \<Longrightarrow> y \<noteq> None"
  shows "interp_point dx dy x \<noteq> None"
proof (rule interp_point_closed [OF assms(1,2)])
  fix y assume "y \<in> set dy" then show "y \<noteq> None" by (rule assms(3))
next
  fix j assume sj: "Suc j < length dy"
  then have "dy ! j \<noteq> None" "dy ! Suc j \<noteq> None" using assms(3) by auto
  then show "(case (dy ! j, dy ! Suc j) of
            (Some a, Some b) \<Rightarrow> Some ((b - a) / (dx ! Suc j - dx ! j) * (x - dx ! j) + a)
          | _ \<Rightarrow> None) \<noteq> None"
    by auto
qed

text \<open>The arrays np.interp hands to the compiled interpolation.\<close>

lemma np_interp_shape:
  assumes "period \<noteq> 0" and "length xp = length fp" and "xp \<noteq> []"
  shows "\<exists>dx dy. length dx = length dy \<and> dy \<noteq> [] \<and> set dy = set fp
           \<and> (\<forall>x. np_interp x xp fp period
                  = Inr (map (interp_point dx dy) (map (\<lambda>v. py_mod v \<bar>period\<bar>) x)))"
proof -
  define srt where "srt = sort_key fst (zip (map (\<lambda>v. py_mod v \<bar>period\<bar>) xp) fp)"
  define xs where "xs = map fst srt"
  define fs where "fs = map snd srt"
  define dx where "dx = map (\<lambda>v. v - \<bar>period\<bar>) (drop (length xs - 1) xs) @ xs
                      @ map (\<lambda>v. v + \<bar>period\<bar>) (take 1 xs)"
  define dy where "dy = drop (length fs - 1) fs @ fs @ take 1 fs"
  have ls: "length srt = length fp" using assms(2) by (simp add: srt_def)
  have lxs: "length xs = length fs" by (simp add: xs_def fs_def)
  have fne: "fs \<noteq> []" using ls assms(2,3) by (auto simp: fs_def)
  have "set fs = snd ` set (zip (map (\<lambda>v. py_mod v \<bar>period\<bar>) xp) fp)"
    by (simp add: fs_def srt_def)
  also have "\<dots> = set (map snd (zip (map (\<lambda>v. py_mod v \<bar>period\<bar>) xp) fp))" by simp
  also have "\<dots> = set fp" using assms(2) by (simp del: set_map)
  finally have sfs: "set fs = set fp" .
  have "set dy = set fs"
    using set_drop_subset [of "length fs - 1" fs] set_take_subset [of 1 fs]
    by (auto simp: dy_def)
  then have sdy: "set dy = set fp" using sfs by simp
  have ldx: "length dx = length dy" using lxs by (simp add: dx_def dy_def)
  have dne: "dy \<noteq> []" using fne by (simp add: dy_def)
  have dxne: "dx \<noteq> []" using ldx dne by auto
  have "np_interp x xp fp period
          = Inr (map (interp_point dx dy) (map (\<lambda>v. py_mod v \<bar>period\<bar>) x))" for x
    using assms(1,2) dxne
    unfolding np_interp_def Let_def dx_def dy_def xs_def fs_def srt_def
    by simp
  then show ?thesis using ldx dne sdy by blast
qed

lemma np_linspace_length:
  assumes "0 \<le> num"
  shows "\<exists>t. np_linspace start stop num = Inr t \<and> length t = nat num"
  using assms by (simp add: np_linspace_def Let_def)

lemma np_linspace_one: "np_linspace start stop 1 = Inr [start]"
  by (simp add: np_linspace_def Let_def)

section \<open>The true anomaly\<close>



lemma true_anomaly_periastron:
  assumes "\<bar>e\<bar> \<le> 1"
  shows "true_anomaly e 0 = Some 0"
proof -
  have r: "\<not> 1 + e < 0" "\<not> 1 - e < 0" using assms by auto
  have "np_arctan2 0 (sqrt (1 - e)) = 0" using r by (simp add: np_arctan2_def)
  then show ?thesis using r by (simp add: true_anomaly_def np_sqrt_def)
qed

lemma py_mod_add_period:
  assumes "T \<noteq> 0"
  shows "py_mod (t + T) \<bar>T\<bar> = py_mod t \<bar>T\<bar>"
proof -
  define s :: int where "s = (if 0 < T then 1 else - 1)"
  have T: "T = of_int s * \<bar>T\<bar>" using assms by (simp add: s_def)
  have "(t + T) / \<bar>T\<bar> = t / \<bar>T\<bar> + T / \<bar>T\<bar>" by (rule add_divide_distrib)
  also have "T / \<bar>T\<bar> = of_int s" using assms by (simp add: s_def)
  finally have "\<lfloor>(t + T) / \<bar>T\<bar>\<rfloor> = \<lfloor>t / \<bar>T\<bar> + of_int s\<rfloor>" by (rule arg_cong)
  also have "\<dots> = \<lfloor>t / \<bar>T\<bar>\<rfloor> + s" by (rule floor_add_int [symmetric])
  finally have fl: "\<lfloor>(t + T) / \<bar>T\<bar>\<rfloor> = \<lfloor>t / \<bar>T\<bar>\<rfloor> + s" .
  have "py_mod (t + T) \<bar>T\<bar> = t + T - \<bar>T\<bar> * (of_int \<lfloor>t / \<bar>T\<bar>\<rfloor> + of_int s)"
    unfolding py_mod_def fl by simp
  also have "\<dots> = t + (T - of_int s * \<bar>T\<bar>) - \<bar>T\<bar> * of_int \<lfloor>t / \<bar>T\<bar>\<rfloor>"
    by (simp add: algebra_simps)
  also have "\<dots> = py_mod t \<bar>T\<bar>" using T by (simp add: py_mod_def)
  finally show ?thesis .
qed

lemma np_interp_add_period:
  "np_interp [t + T] xp fp T = np_interp [t] xp fp T"
  by (cases "T = 0") (simp_all add: np_interp_def Let_def py_mod_add_period)

lemma get_RVs_one_period:
  "get_RVs K T t0 w e a VZ NT ts =
     (case one_period K T t0 w e VZ NT of
        Inl err \<Rightarrow> Inl err
      | Inr (t, RV) \<Rightarrow> np_interp ts t RV T)"
  unfolding get_RVs_def one_period_def Let_def
  by (cases "np_linspace t0 (t0 + T) NT")
     (simp_all split: sum.split)


section \<open>The synthesizer and its adapter\<close>

text \<open>
  C9: the output of \<open>get_RVs\<close> does not depend on the semi-major axis: two calls that
  differ only in \<open>a\<close> return the same result.
\<close>

theorem get_RVs_ignores_semi_major_axis:
  "get_RVs K T t0 w e a1 VZ NT ts = get_RVs K T t0 w e a2 VZ NT ts"
  by (simp add: get_RVs_def)

text \<open>The underflow threshold lies between -1000 and -500.\<close>

lemma ln_2_bounds: "1 / 2 \<le> ln (2::real)" "ln (2::real) \<le> 9 / 10"
proof -
  have "ln (1 / 2 :: real) \<le> 1 / 2 - 1" by (intro ln_le_minus_one) simp
  moreover have "ln (1 / 2 :: real) = - ln 2" by (simp add: ln_div)
  ultimately show "1 / 2 \<le> ln (2::real)" by simp
next
  have "sqrt 2 \<le> 29 / 20" by (intro real_le_lsqrt) (simp_all add: power2_eq_square)
  moreover have "ln (sqrt 2) \<le> sqrt 2 - 1" by (intro ln_le_minus_one) simp
  moreover have "ln (sqrt 2) = ln 2 / 2" by (intro ln_sqrt) simp
  ultimately show "ln (2::real) \<le> 9 / 10" by simp
qed

lemma exp_underflow_bounds: "- 1000 < exp_underflow" "exp_underflow \<le> - 500"
  using ln_2_bounds by (simp_all add: exp_underflow_def)

lemma np_exp_nonneg: "0 \<le> np_exp x"
  by (simp add: np_exp_def)

lemma np_exp_pos: "exp_underflow \<le> x \<Longrightarrow> 0 < np_exp x"
  by (simp add: np_exp_def)

lemma np_exp_exact: "- 500 \<le> x \<Longrightarrow> np_exp x = exp x"
  using exp_underflow_bounds(2) by (simp add: np_exp_def)

lemma np_exp_underflow: "x \<le> - 1000 \<Longrightarrow> np_exp x = 0"
  using exp_underflow_bounds(1) by (simp add: np_exp_def)

text \<open>
  C2: \<open>log_RVs\<close> returns what \<open>get_RVs\<close> returns on the exponentiated K, T, e and a,
  the other parameters unchanged.
\<close>

theorem log_RVs_delegates:
  "log_RVs lnK lnT t0 w lne lna VZ NT ts
     = get_RVs (np_exp lnK) (np_exp lnT) t0 w (np_exp lne) (np_exp lna) VZ NT ts"
  by (simp add: log_RVs_def log_params_def)

text \<open>The instance lnK = ln 5, lnT = ln 100, t0 = 0, w = 90, lne = ln 0.3, lna = ln 1.\<close>

theorem log_RVs_delegates_witness:
  "log_RVs (ln 5) (ln 100) 0 90 (ln (3 / 10)) (ln 1) 0 1000 [0, 25, 50, 75, 100]
     = get_RVs 5 100 0 90 (3 / 10) 1 0 1000 [0, 25, 50, 75, 100]"
proof -
  have "ln (10 / 3 :: real) \<le> 10 / 3 - 1" by (intro ln_le_minus_one) simp
  moreover have "ln (3 / 10 :: real) = - ln (10 / 3)" by (simp add: ln_div)
  ultimately have "- 500 \<le> ln (3 / 10 :: real)" by simp
  then have e: "np_exp (ln (3 / 10)) = 3 / 10" by (simp add: np_exp_exact)
  have "0 \<le> ln (5::real)" "0 \<le> ln (100::real)" by simp_all
  then have "- 500 \<le> ln (5::real)" "- 500 \<le> ln (100::real)" by linarith+
  then have k: "np_exp (ln 5) = 5" "np_exp (ln 100) = 100" "np_exp (ln 1) = 1"
    by (simp_all add: np_exp_exact)
  show ?thesis
    using log_RVs_delegates [of "ln 5" "ln 100" 0 90 "ln (3 / 10)" "ln 1" 0 1000
        "[0, 25, 50, 75, 100]"]
    by (simp only: e k)
qed

text \<open>
  C10, as stated, fails: \<open>np.exp\<close> underflows, so the finite inputs lnT = -1000 and
  lne = -1000 make \<open>log_RVs\<close> call \<open>get_RVs\<close> with the period T = 0 and the
  eccentricity e = 0.
\<close>

theorem log_RVs_underflow_counterexample:
  "log_params 0 (- 1000) (- 1000) 0 = (1, 0, 0, 1)
   \<and> log_RVs 0 (- 1000) 0 90 (- 1000) 0 0 1000 [0] = get_RVs 1 0 0 90 0 1 0 1000 [0]"
proof -
  have p: "log_params 0 (- 1000) (- 1000) 0 = (1, 0, 0, 1)"
    by (simp add: log_params_def np_exp_underflow np_exp_exact)
  then show ?thesis by (simp add: log_RVs_def)
qed

text \<open>
  C10, amended: the parameters \<open>log_RVs\<close> hands to \<open>get_RVs\<close> are never negative, and
  each is strictly positive unless its logarithm lies below the underflow threshold of
  \<open>np.exp\<close>; a period T = 0 and an eccentricity e = 0 occur only by underflow, a negative
  one never, and e \<ge> 1 occurs whenever lne \<ge> 0.
\<close>

theorem log_RVs_parameters_nonnegative:
  assumes "log_params lnK lnT lne lna = (K, T, e, a)"
  shows "0 \<le> K \<and> 0 \<le> T \<and> 0 \<le> e \<and> 0 \<le> a
         \<and> (exp_underflow \<le> lnK \<longrightarrow> 0 < K) \<and> (exp_underflow \<le> lnT \<longrightarrow> 0 < T)
         \<and> (exp_underflow \<le> lne \<longrightarrow> 0 < e) \<and> (exp_underflow \<le> lna \<longrightarrow> 0 < a)
         \<and> (0 \<le> lne \<longrightarrow> 1 \<le> e)
         \<and> log_RVs lnK lnT t0 w lne lna VZ NT ts = get_RVs K T t0 w e a VZ NT ts"
proof -
  have v: "K = np_exp lnK" "T = np_exp lnT" "e = np_exp lne" "a = np_exp lna"
    using assms by (simp_all add: log_params_def)
  have d: "log_RVs lnK lnT t0 w lne lna VZ NT ts = get_RVs K T t0 w e a VZ NT ts"
    by (simp add: log_RVs_def assms)
  have "1 \<le> e" if "0 \<le> lne"
    using that by (simp add: v np_exp_exact)
  then show ?thesis
    using d by (simp add: v np_exp_nonneg np_exp_pos)
qed

theorem log_RVs_parameters_nonnegative_witness:
  "log_params 0 0 0 0 = (1, 1, 1, 1)
   \<and> exp_underflow \<le> 0 \<and> (0::real) \<le> 0 \<and> (1::real) \<le> 1
   \<and> log_RVs 0 0 0 90 0 0 0 2 [0] = get_RVs 1 1 0 90 1 1 0 2 [0]"
proof -
  have p: "log_params 0 0 0 0 = (1, 1, 1, 1)" by (simp add: log_params_def np_exp_exact)
  have u: "exp_underflow \<le> 0" using exp_underflow_bounds(2) by simp
  show ?thesis
    using log_RVs_parameters_nonnegative [OF p, of 0 90 0 2 "[0]"] p u by simp
qed

text \<open>
  C5: for T > 0, e in [0, 1) and NT \<ge> 2, the value at the query time t + T is the value at
  t: the query time enters only through its remainder modulo the period.
\<close>

theorem get_RVs_periodic:
  assumes "0 < T" and "0 \<le> e" and "e < 1" and "2 \<le> NT"
  shows "get_RVs K T t0 w e a VZ NT [t + T] = get_RVs K T t0 w e a VZ NT [t]"
  unfolding get_RVs_one_period
  by (cases "one_period K T t0 w e VZ NT") (auto simp: np_interp_add_period)

theorem get_RVs_periodic_witness:
  "(0::real) < 100 \<and> (0::real) \<le> 3 / 10 \<and> (3 / 10 ::real) < 1 \<and> (2::int) \<le> 1000
   \<and> get_RVs 5 100 0 90 (3 / 10) 1 0 1000 [25 + 100] = get_RVs 5 100 0 90 (3 / 10) 1 0 1000 [25]"
  using get_RVs_periodic [of 100 "3 / 10" 1000 5 0 90 1 0 25] by simp

section \<open>The circular orbit\<close>





section \<open>Degenerate grids and eccentricities\<close>

text \<open>The grid of a single point is the periastron.\<close>

lemma one_period_single:
  assumes "T \<noteq> 0" and "\<bar>e\<bar> \<le> 1"
  shows "one_period K T t0 w e VZ 1 = Inr ([t0], [Some (vr VZ K w 0 e)])"
proof -
  have "solve_kepler e 0 = Inr 0" using assms(2) by (intro solve_kepler_apsis) simp_all
  then show ?thesis
    using assms by (simp add: one_period_def np_linspace_one true_anomaly_periastron)
qed

text \<open>Interpolating samples that are all equal returns that value at every query.\<close>

lemma np_interp_const:
  assumes "period \<noteq> 0" and "length xp = length fp" and "xp \<noteq> []"
    and "\<And>y. y \<in> set fp \<Longrightarrow> y = v"
  shows "np_interp x xp fp period = Inr (map (\<lambda>_. v) x)"
proof -
  obtain dx dy where d: "length dx = length dy" "dy \<noteq> []" "set dy = set fp"
    and r: "\<And>x. np_interp x xp fp period
                  = Inr (map (interp_point dx dy) (map (\<lambda>v. py_mod v \<bar>period\<bar>) x))"
    using np_interp_shape [OF assms(1-3)] by blast
  have "interp_point dx dy z = v" for z
    using d assms(4) by (intro interp_point_const) auto
  then show ?thesis by (simp add: r)
qed

lemma solve_kepler_error: "solve_kepler e Mk = Inl err \<Longrightarrow> err = RuntimeError"
  unfolding solve_kepler_def by (rule sp_newton_error)

lemma true_anomaly_hyperbolic: "1 < e \<Longrightarrow> true_anomaly e E = None"
  by (simp add: true_anomaly_def np_sqrt_def)

lemma true_anomaly_elliptic: "\<bar>e\<bar> \<le> 1 \<Longrightarrow> true_anomaly e E \<noteq> None"
  by (auto simp: true_anomaly_def np_sqrt_def)

lemma one_period_cases:
  assumes "T \<noteq> 0" and "0 < NT"
  shows "one_period K T t0 w e VZ NT = Inl RuntimeError
         \<or> (\<exists>t E. one_period K T t0 w e VZ NT
                     = Inr (t, map (map_option (\<lambda>fk. vr VZ K w fk e)) (map (true_anomaly e) E))
                 \<and> length t = nat NT \<and> length E = nat NT)"
proof -
  obtain t where t: "np_linspace t0 (t0 + T) NT = Inr t" "length t = nat NT"
    using np_linspace_length [of NT t0 "t0 + T"] assms(2) by auto
  define M where "M = map (\<lambda>tk. 2 * pi / T * (tk - t0)) t"
  have o: "one_period K T t0 w e VZ NT =
      (case map_result (solve_kepler e) M of
         Inl err \<Rightarrow> Inl err
       | Inr E \<Rightarrow> Inr (t, map (map_option (\<lambda>fk. vr VZ K w fk e)) (map (true_anomaly e) E)))"
    using assms(1) by (simp add: one_period_def t(1) M_def)
  consider "map_result (solve_kepler e) M = Inl RuntimeError"
    | E where "map_result (solve_kepler e) M = Inr E" "length E = length M"
    using map_result_cases [of "solve_kepler e" M] solve_kepler_error by blast
  then show ?thesis
  proof cases
    case 1
    then show ?thesis by (simp add: o)
  next
    case 2
    then have "length E = nat NT" by (simp add: M_def t(2))
    then show ?thesis using 2(1) t(2) by (auto simp: o)
  qed
qed

text \<open>
  C4, as stated, fails: with NT = 1 the call raises nothing and returns a constant series,
  here 5 (1 + 0.3) = 6.5 at each query time.
\<close>

theorem get_RVs_single_point_counterexample:
  "get_RVs 5 100 0 0 (3 / 10) 1 0 1 [0, 25, 50]
     = Inr [Some (13 / 2), Some (13 / 2), Some (13 / 2)]"
proof -
  have o: "one_period 5 100 0 0 (3 / 10) 0 1 = Inr ([0], [Some (vr 0 5 0 0 (3 / 10))])"
    by (intro one_period_single) simp_all
  have v: "vr 0 5 0 0 (3 / 10) = 13 / 2" by (simp add: vr_def)
  have "np_interp [0, 25, 50] [0] [Some (13 / 2)] 100
          = Inr (map (\<lambda>_. Some (13 / 2)) [0, 25, 50 :: real])"
    by (intro np_interp_const) simp_all
  then show ?thesis by (simp add: get_RVs_one_period o v)
qed

text \<open>
  C4, amended: with NT = 1, T \<noteq> 0 and 0 \<le> e \<le> 1, the call raises no error; the grid is the
  single time t0 and every entry of the result is the periastron velocity
  \<open>vr(VZ, K, w, 0, e)\<close>.
\<close>

theorem get_RVs_single_point:
  assumes "T \<noteq> 0" and "0 \<le> e" and "e \<le> 1"
  shows "get_RVs K T t0 w e a VZ 1 ts = Inr (map (\<lambda>_. Some (vr VZ K w 0 e)) ts)"
proof -
  have "\<bar>e\<bar> \<le> 1" using assms by simp
  then have o: "one_period K T t0 w e VZ 1 = Inr ([t0], [Some (vr VZ K w 0 e)])"
    using assms(1) by (intro one_period_single)
  have "np_interp ts [t0] [Some (vr VZ K w 0 e)] T = Inr (map (\<lambda>_. Some (vr VZ K w 0 e)) ts)"
    using assms(1) by (intro np_interp_const) simp_all
  then show ?thesis by (simp add: get_RVs_one_period o)
qed

theorem get_RVs_single_point_witness:
  "(10::real) \<noteq> 0 \<and> (0::real) \<le> 0 \<and> (0::real) \<le> 1
   \<and> get_RVs 2 10 3 0 0 1 1 1 [1, 2] = Inr [Some 3, Some 3]"
  using get_RVs_single_point [of 10 0 2 3 0 1 1 "[1, 2]"] by (simp add: vr_def)

text \<open>The one-period curve at e = 1 on the grid of two points.\<close>

lemma one_period_parabolic_two_points:
  "one_period 5 100 0 90 1 0 2 = Inr ([0, 100], [Some 0, Some 0])"
proof -
  have l: "np_linspace 0 100 2 = Inr [0, 100]"
    by (simp add: np_linspace_def Let_def upt_conv_Cons)
  have s0: "solve_kepler 1 0 = Inr 0" by (intro solve_kepler_apsis) simp_all
  have s1: "solve_kepler 1 (2 * pi) = Inr (2 * pi)" by (intro solve_kepler_apsis) simp_all
  have f0: "true_anomaly 1 0 = Some 0" by (intro true_anomaly_periastron) simp
  have f1: "true_anomaly 1 (2 * pi) = Some 0"
    by (simp add: true_anomaly_def np_sqrt_def np_arctan2_def)
  have v: "vr 0 5 90 0 1 = 0" by (simp add: vr_def)
  show ?thesis
    by (simp add: one_period_def l s0 s1 f0 f1 v)
qed

text \<open>
  C3, as stated, fails: with e = 1 (K = 5, T = 100, t0 = 0, w = 90, VZ = 0, NT = 2) the call
  raises nothing and returns a value at each query time.
\<close>

theorem get_RVs_parabolic_counterexample:
  "get_RVs 5 100 0 90 1 1 0 2 [0, 50] = Inr [Some 0, Some 0]"
proof -
  have "np_interp [0, 50] [0, 100] [Some 0, Some 0] 100 = Inr (map (\<lambda>_. Some 0) [0, 50 :: real])"
    by (intro np_interp_const) auto
  then show ?thesis
    by (simp add: get_RVs_one_period one_period_parabolic_two_points)
qed

text \<open>
  C3, amended: an eccentricity e \<ge> 1 is not rejected. For T \<noteq> 0 and NT \<ge> 1 the call either
  fails with the RuntimeError of a root solve that did not converge, or returns one value
  per query time: numbers when e = 1, NaN when e > 1.
\<close>

theorem get_RVs_unchecked_eccentricity:
  assumes "1 \<le> e" and "T \<noteq> 0" and "0 < NT"
  shows "get_RVs K T t0 w e a VZ NT ts = Inl RuntimeError
         \<or> (\<exists>vs. get_RVs K T t0 w e a VZ NT ts = Inr vs \<and> length vs = length ts
               \<and> (if 1 < e then \<forall>v\<in>set vs. v = None else \<forall>v\<in>set vs. v \<noteq> None))"
proof -
  consider "one_period K T t0 w e VZ NT = Inl RuntimeError"
    | t E where "one_period K T t0 w e VZ NT
                   = Inr (t, map (map_option (\<lambda>fk. vr VZ K w fk e)) (map (true_anomaly e) E))"
        "length t = nat NT" "length E = nat NT"
    using one_period_cases [OF assms(2,3)] by blast
  then show ?thesis
  proof cases
    case 1
    then show ?thesis by (simp add: get_RVs_one_period)
  next
    case 2
    define RV where "RV = map (map_option (\<lambda>fk. vr VZ K w fk e)) (map (true_anomaly e) E)"
    have g: "get_RVs K T t0 w e a VZ NT ts = np_interp ts t RV T"
      by (simp add: get_RVs_one_period 2(1) RV_def)
    have len: "length t = length RV" by (simp add: RV_def 2(2,3))
    have tne: "t \<noteq> []" using 2(2) assms(3) by auto
    obtain dx dy where d: "length dx = length dy" "dy \<noteq> []" "set dy = set RV"
      and r: "\<And>x. np_interp x t RV T
                  = Inr (map (interp_point dx dy) (map (\<lambda>v. py_mod v \<bar>T\<bar>) x))"
      using np_interp_shape [OF assms(2) len tne] by blast
    define vs where "vs = map (interp_point dx dy) (map (\<lambda>v. py_mod v \<bar>T\<bar>) ts)"
    have gv: "get_RVs K T t0 w e a VZ NT ts = Inr vs" "length vs = length ts"
      by (simp_all add: g r vs_def)
    have "if 1 < e then \<forall>v\<in>set vs. v = None else \<forall>v\<in>set vs. v \<noteq> None"
    proof (cases "1 < e")
      case True
      then have "\<And>y. y \<in> set dy \<Longrightarrow> y = None"
        by (auto simp: d(3) RV_def true_anomaly_hyperbolic)
      then have "interp_point dx dy z = None" for z
        using d(1,2) by (intro interp_point_const)
      then show ?thesis using True by (simp add: vs_def)
    next
      case False
      then have "\<bar>e\<bar> \<le> 1" using assms(1) by simp
      then have "\<And>x. true_anomaly e x \<noteq> None" by (rule true_anomaly_elliptic)
      then have "\<And>y. y \<in> set dy \<Longrightarrow> y \<noteq> None"
        by (auto simp: d(3) RV_def)
      then have "interp_point dx dy z \<noteq> None" for z
        using d(1,2) by (intro interp_point_finite)
      then show ?thesis using False by (auto simp: vs_def)
    qed
    then show ?thesis using gv by blast
  qed
qed

theorem get_RVs_unchecked_eccentricity_witness:
  "(1::real) \<le> 2 \<and> (100::real) \<noteq> 0 \<and> (0::int) < 2
   \<and> (get_RVs 5 100 0 90 2 1 0 2 [0, 50] = Inl RuntimeError
      \<or> (\<exists>vs. get_RVs 5 100 0 90 2 1 0 2 [0, 50] = Inr vs \<and> length vs = length [0, 50 :: real]
            \<and> (\<forall>v\<in>set vs. v = None)))"
  using get_RVs_unchecked_eccentricity [of 2 100 2 5 0 90 1 0 "[0, 50]"] by simp

end
